theory Spec2Isabelle
  imports Complex_Main "HOL-Library.AList"
begin

section \<open>Values of the host language\<close>

text \<open>
  The hook \<^verbatim>\<open>useSimpleFormState\<close> of \<^verbatim>\<open>src/use-simple-form-state.ts\<close> stores plain
  JavaScript data. A number is \<^verbatim>\<open>NaN\<close>, an infinity or a finite number (the two zeros
  are one value here, as \<^verbatim>\<open>===\<close> has it); a value is a primitive, an array or a plain
  object. Values are immutable trees: object identity is not part of the embedding.
\<close>

datatype jsnum = NaN | PosInf | NegInf | Fin real

datatype jsval = Undefined | Null | Bool bool | Num jsnum | Str string
  | Arr "jsval list" | Obj "(string \<times> jsval) list"

text \<open>
  A plain object is the list of its own enumerable properties in insertion order, one
  entry per key. \<^verbatim>\<open>{}\<close> is \<open>[]\<close>; the spread-and-set \<^verbatim>\<open>{ ...o, [k]: v }\<close> is
  \<^const>\<open>AList.update\<close> \<open>k v o\<close>, which replaces the entry of \<open>k\<close> where it stands or
  appends a new one; so is the assignment \<^verbatim>\<open>o[k] = v\<close>. (The host lists keys that
  look like array indices first; no property below reads the order of the keys.) Field
  names are keys of the value type, never names an object inherits from its prototype.
\<close>

type_synonym 'v object = "(string \<times> 'v) list"

definition keys :: "'v object \<Rightarrow> string list" where
  \<comment> \<open>\<^verbatim>\<open>Object.keys(obj)\<close>\<close>
  "keys obj = map fst obj"


definition entries :: "'v object \<Rightarrow> (string \<times> 'v) list" where
  \<comment> \<open>\<^verbatim>\<open>Object.entries(obj)\<close>\<close>
  "entries obj = obj"


definition get :: "jsval object \<Rightarrow> string \<Rightarrow> jsval" where
  \<comment> \<open>the property read \<^verbatim>\<open>obj[key]\<close>: \<^verbatim>\<open>undefined\<close> for a key the object does not have\<close>
  "get obj key = (case map_of obj key of None \<Rightarrow> Undefined | Some v \<Rightarrow> v)"

definition well_formed :: "'v object \<Rightarrow> bool" where
  \<comment> \<open>an object has one entry per key\<close>
  "well_formed obj = distinct (keys obj)"

fun typeof :: "jsval \<Rightarrow> string" where
  "typeof Undefined = ''undefined''"
| "typeof Null = ''object''"
| "typeof (Bool b) = ''boolean''"
| "typeof (Num n) = ''number''"
| "typeof (Str s) = ''string''"
| "typeof (Arr a) = ''object''"
| "typeof (Obj a) = ''object''"

fun not_nullish :: "jsval \<Rightarrow> bool" where
  \<comment> \<open>the loose test \<^verbatim>\<open>v != null\<close>, false for \<^verbatim>\<open>null\<close> and for \<^verbatim>\<open>undefined\<close>\<close>
  "not_nullish Undefined = False"
| "not_nullish Null = False"
| "not_nullish v = True"

definition coalesce :: "jsval \<Rightarrow> jsval \<Rightarrow> jsval" where
  \<comment> \<open>\<^verbatim>\<open>v ?? d\<close>\<close>
  "coalesce v d = (if not_nullish v then v else d)"


fun join :: "string \<Rightarrow> string list \<Rightarrow> string" where
  \<comment> \<open>\<^verbatim>\<open>messages.join(separator)\<close> on an array of strings\<close>
  "join separator [] = []"
| "join separator [m] = m"
| "join separator (m # n # ms) = m @ separator @ join separator (n # ms)"

subsection \<open>The two imported functions\<close>




text \<open>
  Modelled from the spec: \<^verbatim>\<open>structuredClone\<close> is a global of the host platform and
  not among the source files. Section 4.6 of the spec asks of it "a deep, independent
  copy": on plain data it rebuilds every array and every object, keeping the keys,
  their order and the primitive values.
\<close>

fun structuredClone :: "jsval \<Rightarrow> jsval" where
  "structuredClone (Arr a) = Arr (map structuredClone a)"
| "structuredClone (Obj a) = Obj (map (\<lambda>(key, v). (key, structuredClone v)) a)"
| "structuredClone v = v"

definition structuredClone_object :: "jsval object \<Rightarrow> jsval object" where
  \<comment> \<open>\<^const>\<open>structuredClone\<close> applied to a plain object, as the object it returns\<close>
  "structuredClone_object a = map (\<lambda>(key, v). (key, structuredClone v)) a"

section \<open>The hook\<close>

text \<open>
  The hook is called with a schema and \<^verbatim>\<open>options\<close>. Of the schema it uses
  \<^verbatim>\<open>schema.parse(values)\<close>, which returns the parsed data or throws. What it throws
  is a \<^verbatim>\<open>ZodError\<close>, given here by the \<^verbatim>\<open>fieldErrors\<close> of its \<^verbatim>\<open>flatten()\<close> (an object
  from field names to \<^verbatim>\<open>string[] | undefined\<close>), or anything else, given by a message.
  \<^verbatim>\<open>new Error(message)\<close> of the binding helpers is the second kind.
\<close>

datatype thrown = ZodError "(string list option) object" | Error string

record schema =
  parse :: "jsval object \<Rightarrow> thrown + jsval object"

record options =
  initialValues :: "jsval object"

text \<open>
  The three \<^verbatim>\<open>useState\<close> cells (lines 11 to 13). Every operation below is a function
  from the state of the render that handed it out to the state of the next render, in
  the order the updates are queued.
\<close>

record form_state =
  "values" :: "jsval object"
  errors :: "string object"
  touched :: "bool object"

definition useState_initial :: "options \<Rightarrow> form_state" where
  "useState_initial options =
     \<lparr>values = initialValues options, errors = [], touched = []\<rparr>"

definition setFieldValue :: "string \<Rightarrow> jsval \<Rightarrow> form_state \<Rightarrow> form_state" where
  "setFieldValue name v s =
     s\<lparr>values := AList.update name v (values s),
       touched := AList.update name True (touched s)\<rparr>"

text \<open>
  The binding helpers (lines 20 to 63). An event is given by what the handlers read of
  it, \<^verbatim>\<open>event.target.value\<close> and \<^verbatim>\<open>event.target.checked\<close>. A helper throws or returns
  the props of an input; the handler \<^verbatim>\<open>onChange\<close> of the props queues the updates of
  \<^const>\<open>setFieldValue\<close>. The parameter \<^verbatim>\<open>name\<close> of a helper is \<open>field\<close> here.
\<close>

record event =
  target_value :: string
  target_checked :: bool

record props =
  name :: string
  onChange :: "event \<Rightarrow> form_state \<Rightarrow> form_state"

record value_props = props +
  "value" :: jsval



text \<open>
  \<^verbatim>\<open>Number\<close> is the host's conversion of a string to a number; the helper stores what
  it returns, so it is a parameter here.
\<close>

definition number_binding ::
  "(string \<Rightarrow> jsnum) \<Rightarrow> form_state \<Rightarrow> string \<Rightarrow> thrown + value_props" where
  "number_binding Number s field =
     (if not_nullish (get (values s) field) \<and> typeof (get (values s) field) \<noteq> ''number''
      then Inl (Error (''useSimpleFormState.number(): field '' @ [CHR 0x27] @ field @ [CHR 0x27]
                        @ '' is not a number''))
      else Inr \<lparr>name = field,
                onChange = (\<lambda>event. setFieldValue field
                   (if target_value event = [] then Null else Num (Number (target_value event)))),
                value = coalesce (get (values s) field) (Str [])\<rparr>)"


definition select_binding :: "form_state \<Rightarrow> string \<Rightarrow> value_props" where
  \<comment> \<open>no type test here, so nothing is thrown\<close>
  "select_binding s field =
     \<lparr>name = field,
      onChange = (\<lambda>event. setFieldValue field (Str (target_value event))),
      value = coalesce (get (values s) field) (Str [])\<rparr>"

text \<open>
  \<^verbatim>\<open>validate\<close> (lines 65 to 83) completes by returning a boolean or by throwing, and
  leaves a state. The \<^verbatim>\<open>try\<close> block is the first branch; the \<^verbatim>\<open>catch\<close> block receives
  whatever \<^verbatim>\<open>schema.parse\<close> threw.
\<close>

definition flatten_step ::
  "string \<times> string list option \<Rightarrow> string object \<Rightarrow> string object" where
  \<comment> \<open>the body of the \<^verbatim>\<open>forEach\<close> of lines 74 to 78\<close>
  "flatten_step entry fieldErrors =
     (case entry of (key, messages) \<Rightarrow>
        (case messages of
           None \<Rightarrow> fieldErrors
         | Some ms \<Rightarrow>
             if length ms > 0 then AList.update key (join '', '' ms) fieldErrors
             else fieldErrors))"

definition validate :: "schema \<Rightarrow> form_state \<Rightarrow> (thrown + bool) \<times> form_state" where
  "validate schema s =
     (case parse schema (values s) of
        Inr parsed \<Rightarrow> (Inr True, s\<lparr>errors := []\<rparr>)
      | Inl error \<Rightarrow>
          (case error of
             ZodError flattenedErrors \<Rightarrow>
               (Inr False, s\<lparr>errors := fold flatten_step (entries flattenedErrors) []\<rparr>)
           | Error message \<Rightarrow> (Inr False, s)))"

definition reset :: "options \<Rightarrow> form_state \<Rightarrow> form_state" where
  "reset options s =
     s\<lparr>values := structuredClone_object (initialValues options), errors := [], touched := []\<rparr>"











text \<open>
  A caller of the hook invokes its three mutating operations in some order, one per
  render, with the same schema and options throughout; the boolean of \<^verbatim>\<open>validate\<close> is
  the caller's to use.
\<close>

datatype action = SetFieldValue string jsval | Validate | Reset

fun step :: "schema \<Rightarrow> options \<Rightarrow> action \<Rightarrow> form_state \<Rightarrow> form_state" where
  "step schema options (SetFieldValue field v) s = setFieldValue field v s"
| "step schema options Validate s = snd (validate schema s)"
| "step schema options Reset s = reset options s"


subsection \<open>Schemas of the worked examples\<close>

definition accepting :: schema where
  \<comment> \<open>a schema every value set satisfies\<close>
  "accepting = \<lparr>parse = (\<lambda>vs. Inr vs)\<rparr>"

definition rejecting :: "(string list option) object \<Rightarrow> schema" where
  \<comment> \<open>a schema whose \<^verbatim>\<open>parse\<close> throws a \<^verbatim>\<open>ZodError\<close> with the given field errors\<close>
  "rejecting fieldErrors = \<lparr>parse = (\<lambda>vs. Inl (ZodError fieldErrors))\<rparr>"


definition userValues :: "jsval object" where
  \<comment> \<open>the initial values of the README's example\<close>
  "userValues = [(''name'', Str []), (''age'', Num (Fin 0)), (''isAdmin'', Bool False),
                 (''role'', Str [])]"

definition userOptions :: options where
  "userOptions = \<lparr>initialValues = userValues\<rparr>"

subsection \<open>Consistency of the memo cells\<close>



section \<open>Supporting facts\<close>

subsection \<open>Facts about the host functions\<close>





lemma join_empty_iff: "join '', '' ms = [] \<longleftrightarrow> ms = [] \<or> ms = [[]]"
  by (induction "'', ''" ms rule: join.induct) auto

subsection \<open>Facts about the loop of \<^verbatim>\<open>validate\<close>\<close>

lemma map_of_flatten_step:
  "map_of (flatten_step (k, m) acc) f =
     (if f = k then (case m of Some ms \<Rightarrow> if ms = [] then map_of acc f else Some (join '', '' ms)
                               | None \<Rightarrow> map_of acc f)
      else map_of acc f)"
  by (simp add: flatten_step_def update_conv' split: option.splits)

lemma map_of_fold_flatten_step:
  "distinct (map fst fe) \<Longrightarrow>
   map_of (fold flatten_step fe acc) f =
     (case map_of fe f of
        Some (Some ms) \<Rightarrow> if ms = [] then map_of acc f else Some (join '', '' ms)
      | _ \<Rightarrow> map_of acc f)"
proof (induction fe arbitrary: acc)
  case Nil
  then show ?case by simp
next
  case (Cons e fe)
  obtain k m where e: "e = (k, m)" by (cases e)
  from Cons.prems e have k: "map_of fe k = None" and d: "distinct (map fst fe)"
    by (auto simp: map_of_eq_None_iff)
  have "map_of (fold flatten_step (e # fe) acc) f =
        (case map_of fe f of
           Some (Some ms) \<Rightarrow> if ms = [] then map_of (flatten_step (k, m) acc) f
                             else Some (join '', '' ms)
         | _ \<Rightarrow> map_of (flatten_step (k, m) acc) f)"
    using Cons.IH [OF d, of "flatten_step (k, m) acc"] e by simp
  also have "\<dots> = (case map_of (e # fe) f of
        Some (Some ms) \<Rightarrow> if ms = [] then map_of acc f else Some (join '', '' ms)
      | _ \<Rightarrow> map_of acc f)"
    using k e by (auto simp: map_of_flatten_step split: option.splits)
  finally show ?case .
qed

lemma fold_flatten_step_entry:
  "map_of (fold flatten_step fe acc) f = Some e \<Longrightarrow>
   map_of acc f = Some e \<or> (\<exists>ms. (f, Some ms) \<in> set fe \<and> ms \<noteq> [] \<and> e = join '', '' ms)"
proof (induction fe arbitrary: acc)
  case Nil
  then show ?case by simp
next
  case (Cons x fe)
  obtain k m where x: "x = (k, m)" by (cases x)
  from Cons.prems have "map_of (fold flatten_step fe (flatten_step (k, m) acc)) f = Some e"
    by (simp add: x)
  from Cons.IH [OF this]
  show ?case
    by (auto simp: x map_of_flatten_step split: if_splits option.splits)
qed


subsection \<open>Facts about the derived state\<close>













section \<open>Properties of the hook\<close>





text \<open>
  C2. When \<^verbatim>\<open>schema.parse\<close> succeeds, \<^verbatim>\<open>validate\<close> sets \<^verbatim>\<open>errors\<close> to \<^verbatim>\<open>{}\<close> and
  returns \<^verbatim>\<open>true\<close>. When it throws a \<^verbatim>\<open>ZodError\<close>, \<^verbatim>\<open>validate\<close> returns \<^verbatim>\<open>false\<close>
  and changes nothing but \<^verbatim>\<open>errors\<close>, which it overwrites: the new \<^verbatim>\<open>errors\<close> has, for
  every field with a list of messages, the messages joined with \<^verbatim>\<open>", "\<close>, whatever
  \<^verbatim>\<open>errors\<close> held before (a field with an empty list or none has no entry).
\<close>

theorem validate_result:
  "(\<forall>parsed. parse schema (values s) = Inr parsed \<longrightarrow>
       validate schema s = (Inr True, s\<lparr>errors := []\<rparr>))
   \<and> (\<forall>fieldErrors. parse schema (values s) = Inl (ZodError fieldErrors) \<longrightarrow>
         fst (validate schema s) = Inr False
         \<and> snd (validate schema s) = s\<lparr>errors := errors (snd (validate schema s))\<rparr>
         \<and> (well_formed fieldErrors \<longrightarrow>
              (\<forall>f. map_of (errors (snd (validate schema s))) f =
                 (case map_of fieldErrors f of
                    Some (Some messages) \<Rightarrow>
                      if messages = [] then None else Some (join '', '' messages)
                  | _ \<Rightarrow> None))))"
proof -
  have "map_of (fold flatten_step fe []) f =
          (case map_of fe f of
             Some (Some messages) \<Rightarrow> if messages = [] then None else Some (join '', '' messages)
           | _ \<Rightarrow> None)" if "well_formed fe" for fe f
    using that map_of_fold_flatten_step [of fe "[]" f]
    by (simp add: well_formed_def keys_def split: option.splits)
  then show ?thesis
    by (simp add: validate_def entries_def)
qed

theorem validate_result_witness:
  "validate accepting \<lparr>values = userValues, errors = [(''name'', ''Required'')], touched = []\<rparr>
     = (Inr True, \<lparr>values = userValues, errors = [], touched = []\<rparr>)
   \<and> fst (validate (rejecting [(''name'', Some [''Required'', ''Too short'']),
                               (''age'', Some [''Required''])])
        \<lparr>values = userValues, errors = [(''role'', ''Required'')], touched = []\<rparr>) = Inr False
   \<and> map_of (errors (snd (validate (rejecting [(''name'', Some [''Required'', ''Too short'']),
                                               (''age'', Some [''Required''])])
        \<lparr>values = userValues, errors = [(''role'', ''Required'')], touched = []\<rparr>))) ''name''
       = Some ''Required, Too short''
   \<and> map_of (errors (snd (validate (rejecting [(''name'', Some [''Required'', ''Too short'']),
                                               (''age'', Some [''Required''])])
        \<lparr>values = userValues, errors = [(''role'', ''Required'')], touched = []\<rparr>))) ''age''
       = Some ''Required''
   \<and> map_of (errors (snd (validate (rejecting [(''name'', Some [''Required'', ''Too short'']),
                                               (''age'', Some [''Required''])])
        \<lparr>values = userValues, errors = [(''role'', ''Required'')], touched = []\<rparr>))) ''role''
       = None"
  using validate_result [of accepting
      "\<lparr>values = userValues, errors = [(''name'', ''Required'')], touched = []\<rparr>"]
    validate_result [of "rejecting [(''name'', Some [''Required'', ''Too short'']),
                                    (''age'', Some [''Required''])]"
      "\<lparr>values = userValues, errors = [(''role'', ''Required'')], touched = []\<rparr>"]
  by (simp add: accepting_def rejecting_def well_formed_def keys_def)



text \<open>C4: after \<open>setFieldValue f v\<close> the field \<open>f\<close> holds \<open>v\<close> and is touched, every
  other field keeps its value and its touched flag, and the errors are the same (no
  validation has run).\<close>

theorem setFieldValue_frame:
  "map_of (values (setFieldValue f v s)) f = Some v
   \<and> get (values (setFieldValue f v s)) f = v
   \<and> map_of (touched (setFieldValue f v s)) f = Some True
   \<and> (\<forall>g. g \<noteq> f \<longrightarrow>
         map_of (values (setFieldValue f v s)) g = map_of (values s) g
         \<and> get (values (setFieldValue f v s)) g = get (values s) g
         \<and> map_of (touched (setFieldValue f v s)) g = map_of (touched s) g)
   \<and> errors (setFieldValue f v s) = errors s"
  by (simp add: setFieldValue_def get_def update_conv')

theorem setFieldValue_frame_witness:
  "map_of (values (setFieldValue ''age'' (Num (Fin 3))
      \<lparr>values = [(''name'', Str ''a''), (''age'', Num (Fin 0))], errors = [(''name'', ''Required'')],
       touched = []\<rparr>)) ''age'' = Some (Num (Fin 3))
   \<and> ''name'' \<noteq> ''age''
   \<and> map_of (values (setFieldValue ''age'' (Num (Fin 3))
      \<lparr>values = [(''name'', Str ''a''), (''age'', Num (Fin 0))], errors = [(''name'', ''Required'')],
       touched = []\<rparr>)) ''name'' = Some (Str ''a'')
   \<and> map_of (touched (setFieldValue ''age'' (Num (Fin 3))
      \<lparr>values = [(''name'', Str ''a''), (''age'', Num (Fin 0))], errors = [(''name'', ''Required'')],
       touched = []\<rparr>)) ''name'' = None
   \<and> errors (setFieldValue ''age'' (Num (Fin 3))
      \<lparr>values = [(''name'', Str ''a''), (''age'', Num (Fin 0))], errors = [(''name'', ''Required'')],
       touched = []\<rparr>) = [(''name'', ''Required'')]"
  using setFieldValue_frame [of "''age''" "Num (Fin 3)"
      "\<lparr>values = [(''name'', Str ''a''), (''age'', Num (Fin 0))], errors = [(''name'', ''Required'')],
        touched = []\<rparr>"]
  by simp



text \<open>
  C6. \<^verbatim>\<open>validate\<close> leaves \<^verbatim>\<open>values\<close> and \<^verbatim>\<open>touched\<close> as they were. A field whose
  touched flag becomes true in one operation of the hook was the field of a
  \<^verbatim>\<open>setFieldValue\<close>: neither \<^verbatim>\<open>validate\<close> nor \<^verbatim>\<open>reset\<close> sets a flag.
\<close>

theorem validate_frame:
  "values (snd (validate schema s)) = values s
   \<and> touched (snd (validate schema s)) = touched s
   \<and> (\<forall>f. map_of (touched (step schema options a s)) f = Some True
            \<and> map_of (touched s) f \<noteq> Some True \<longrightarrow> (\<exists>v. a = SetFieldValue f v))"
proof -
  have v: "values (snd (validate schema s)) = values s"
    and t: "touched (snd (validate schema s)) = touched s"
    by (simp_all add: validate_def split: sum.splits thrown.splits)
  have "\<exists>v. a = SetFieldValue f v"
    if "map_of (touched (step schema options a s)) f = Some True"
      and "map_of (touched s) f \<noteq> Some True" for f
    using that t
    by (cases a) (auto simp: setFieldValue_def reset_def update_conv' split: if_splits)
  with v t show ?thesis by blast
qed

theorem validate_frame_witness:
  "values (snd (validate (rejecting [(''name'', Some [''Required''])])
                  (useState_initial userOptions))) = userValues
   \<and> touched (snd (validate (rejecting [(''name'', Some [''Required''])])
                     (useState_initial userOptions))) = []
   \<and> map_of (touched (step (rejecting [(''name'', Some [''Required''])]) userOptions
        (SetFieldValue ''age'' (Num (Fin 1))) (useState_initial userOptions))) ''age'' = Some True
   \<and> map_of (touched (useState_initial userOptions)) ''age'' \<noteq> Some True
   \<and> (\<exists>v. SetFieldValue ''age'' (Num (Fin 1)) = SetFieldValue ''age'' v)"
  using validate_frame [of "rejecting [(''name'', Some [''Required''])]"
      "useState_initial userOptions" userOptions "SetFieldValue ''age'' (Num (Fin 1))"]
  by (simp add: useState_initial_def userOptions_def setFieldValue_def)






text \<open>
  C9. The change handler of the props \<^verbatim>\<open>bind.number\<close> returns for a field calls
  \<^verbatim>\<open>setFieldValue\<close> with \<^verbatim>\<open>null\<close> when the input string is empty and with
  \<^verbatim>\<open>Number(input)\<close> otherwise, with no check of the number: after it the field holds
  \<^verbatim>\<open>null\<close> (which is not \<^verbatim>\<open>0\<close>), or whatever \<^verbatim>\<open>Number\<close> returned, \<^verbatim>\<open>NaN\<close> included.
\<close>

theorem number_binding_onChange:
  assumes "number_binding Number s f = Inr p"
  shows "onChange p event s' =
           setFieldValue f (if target_value event = [] then Null
                            else Num (Number (target_value event))) s'
    \<and> (target_value event = [] \<longrightarrow> map_of (values (onChange p event s')) f = Some Null)
    \<and> (target_value event \<noteq> [] \<longrightarrow>
          map_of (values (onChange p event s')) f = Some (Num (Number (target_value event))))
    \<and> (target_value event \<noteq> [] \<and> Number (target_value event) = NaN \<longrightarrow>
          map_of (values (onChange p event s')) f = Some (Num NaN))
    \<and> map_of (touched (onChange p event s')) f = Some True
    \<and> Null \<noteq> Num (Fin 0)"
  using assms
  by (auto simp: number_binding_def setFieldValue_def update_conv' split: if_splits)

theorem number_binding_onChange_witness:
  "number_binding (\<lambda>str. if str = ''42'' then Fin 42 else NaN) (useState_initial userOptions) ''age''
     = Inr \<lparr>name = ''age'',
            onChange = (\<lambda>event. setFieldValue ''age''
               (if target_value event = [] then Null
                else Num (if target_value event = ''42'' then Fin 42 else NaN))),
            value = Num (Fin 0)\<rparr>
   \<and> map_of (values (setFieldValue ''age'' Null (useState_initial userOptions))) ''age'' = Some Null
   \<and> map_of (values (setFieldValue ''age'' (Num NaN) (useState_initial userOptions))) ''age''
       = Some (Num NaN)
   \<and> map_of (values (setFieldValue ''age'' (Num (Fin 42)) (useState_initial userOptions))) ''age''
       = Some (Num (Fin 42))"
proof -
  let ?Number = "\<lambda>str. if str = ''42'' then Fin 42 else NaN"
  let ?s = "useState_initial userOptions"
  let ?p = "\<lparr>name = ''age'',
            onChange = (\<lambda>event. setFieldValue ''age''
               (if target_value event = [] then Null
                else Num (if target_value event = ''42'' then Fin 42 else NaN))),
            value = Num (Fin 0)\<rparr>"
  have b: "number_binding ?Number ?s ''age'' = Inr ?p"
    by (simp add: number_binding_def useState_initial_def userOptions_def userValues_def get_def
        coalesce_def)
  show ?thesis
    using b
      number_binding_onChange [OF b, of "\<lparr>target_value = [], target_checked = False\<rparr>" ?s]
      number_binding_onChange [OF b, of "\<lparr>target_value = ''abc'', target_checked = False\<rparr>" ?s]
      number_binding_onChange [OF b, of "\<lparr>target_value = ''42'', target_checked = False\<rparr>" ?s]
    by simp
qed

text \<open>
  C10, as stated, concludes that every value stored in \<^verbatim>\<open>errors\<close> is a non-empty
  string. A \<^verbatim>\<open>ZodError\<close> whose only message for \<^verbatim>\<open>name\<close> is the empty string passes the
  test of line 75 (one message) and stores the empty string.
\<close>

theorem errors_nonempty_counterexample:
  "parse (rejecting [(''name'', Some [[]])]) (values (useState_initial userOptions))
     = Inl (ZodError [(''name'', Some [[]])])
   \<and> errors (snd (validate (rejecting [(''name'', Some [[]])]) (useState_initial userOptions)))
     = [(''name'', [])]
   \<and> map_of (errors (snd (validate (rejecting [(''name'', Some [[]])])
                          (useState_initial userOptions)))) ''name'' = Some []"
  by (simp add: validate_def rejecting_def entries_def flatten_step_def)

text \<open>
  C10, as the code has it. The \<^verbatim>\<open>errors\<close> that \<^verbatim>\<open>validate\<close> writes on a \<^verbatim>\<open>ZodError\<close>
  has an entry for a field only when the field errors hold a non-empty list of messages
  for it, and the entry is those messages joined with \<^verbatim>\<open>", "\<close>; it is the empty
  string exactly when the list is the one empty message.
\<close>

theorem errors_entries_have_messages:
  assumes "parse schema (values s) = Inl (ZodError fieldErrors)"
    and "map_of (errors (snd (validate schema s))) f = Some e"
  shows "\<exists>messages. (f, Some messages) \<in> set (entries fieldErrors) \<and> messages \<noteq> []
           \<and> e = join '', '' messages \<and> (e = [] \<longleftrightarrow> messages = [[]])"
proof -
  from assms have "map_of (fold flatten_step fieldErrors []) f = Some e"
    by (simp add: validate_def entries_def)
  from fold_flatten_step_entry [OF this]
  obtain ms where "(f, Some ms) \<in> set fieldErrors" "ms \<noteq> []" "e = join '', '' ms"
    by auto
  then show ?thesis
    using join_empty_iff [of ms] by (auto simp: entries_def)
qed

theorem errors_entries_have_messages_witness:
  "parse (rejecting [(''name'', Some [''Required'', ''Too short'']), (''age'', Some []),
                     (''role'', None)])
      (values (useState_initial userOptions))
     = Inl (ZodError [(''name'', Some [''Required'', ''Too short'']), (''age'', Some []),
                      (''role'', None)])
   \<and> errors (snd (validate (rejecting [(''name'', Some [''Required'', ''Too short'']),
                                       (''age'', Some []), (''role'', None)])
        (useState_initial userOptions))) = [(''name'', ''Required, Too short'')]
   \<and> (\<exists>messages. (''name'', Some messages)
            \<in> set (entries [(''name'', Some [''Required'', ''Too short'']), (''age'', Some []),
                             (''role'', None)])
          \<and> messages \<noteq> [] \<and> ''Required, Too short'' = join '', '' messages
          \<and> (''Required, Too short'' = [] \<longleftrightarrow> messages = [[]]))"
proof -
  let ?fe = "[(''name'', Some [''Required'', ''Too short'']), (''age'', Some []), (''role'', None)]"
  let ?s = "useState_initial userOptions"
  have p: "parse (rejecting ?fe) (values ?s) = Inl (ZodError ?fe)"
    by (simp add: rejecting_def)
  have e: "errors (snd (validate (rejecting ?fe) ?s)) = [(''name'', ''Required, Too short'')]"
    by (simp add: validate_def rejecting_def entries_def flatten_step_def)
  then have m: "map_of (errors (snd (validate (rejecting ?fe) ?s))) ''name''
                  = Some ''Required, Too short''"
    by simp
  from errors_entries_have_messages [OF p m] p e show ?thesis by simp
qed

end
